theory Spec2Isabelle
  imports
    Main
    "HOL-Library.Finite_Map"
    "HOL-Library.Char_ord"
    "HOL-Library.List_Lexorder"
begin

section \<open>Python values\<close>

text \<open>
  The functions of \<^verbatim>\<open>dagster_aws/ecs/tasks.py\<close> work on the JSON documents of the ECS
  control plane: dictionaries with string keys, lists, strings, numbers, booleans and
  \<^verbatim>\<open>None\<close>. A dictionary is a finite map: Python compares dictionaries without regard to
  the order of their keys, and so does equality of finite maps. (Numbers are integers; the
  documents handled here carry no floating point values.)
\<close>

datatype pyval =
    PNone
  | PBool bool
  | PInt int
  | PStr string
  | PList "pyval list"
  | PDict "(string, pyval) fmap"

type_synonym pydict = "(string, pyval) fmap"

text \<open>
  The exceptions that the code raises itself (\<^verbatim>\<open>EcsNoTasksFound\<close>,
  \<^verbatim>\<open>EcsEventualConsistencyTimeout\<close>), those that Python raises for it, and
  \<^verbatim>\<open>ExternalError\<close> for whatever a collaborator (boto3, requests) raises.
\<close>

datatype exn =
    KeyError
  | TypeError
  | IndexError
  | ValueError
  | AttributeError
  | StopIteration
  | EcsNoTasksFound
  | EcsEventualConsistencyTimeout
  | ExternalError string

text \<open>Sequencing of computations that may raise: the first exception ends the run.\<close>

definition and_then :: "exn + 'a \<Rightarrow> ('a \<Rightarrow> exn + 'b) \<Rightarrow> exn + 'b" where
  "and_then r f = (case r of Inl e \<Rightarrow> Inl e | Inr v \<Rightarrow> f v)"

text \<open>Python's truth value of an object, as \<^verbatim>\<open>if x\<close> and \<^verbatim>\<open>x or y\<close> test it.\<close>

fun truthy :: "pyval \<Rightarrow> bool" where
  "truthy PNone = False"
| "truthy (PBool b) = b"
| "truthy (PInt i) = (i \<noteq> 0)"
| "truthy (PStr s) = (s \<noteq> [])"
| "truthy (PList xs) = (xs \<noteq> [])"
| "truthy (PDict m) = (m \<noteq> fmempty)"

text \<open>
  Python's \<^verbatim>\<open>==\<close>: structural, except that \<^verbatim>\<open>True == 1\<close> and \<^verbatim>\<open>False == 0\<close>, also
  inside lists and dictionaries. \<open>py_norm\<close> maps booleans to those integers, and two
  values are equal in Python when their normal forms are the same.
\<close>

primrec py_norm :: "pyval \<Rightarrow> pyval" where
  "py_norm PNone = PNone"
| "py_norm (PBool b) = PInt (if b then 1 else 0)"
| "py_norm (PInt i) = PInt i"
| "py_norm (PStr s) = PStr s"
| "py_norm (PList xs) = PList (map py_norm xs)"
| "py_norm (PDict m) = PDict (fmmap py_norm m)"

definition py_eq :: "pyval \<Rightarrow> pyval \<Rightarrow> bool" where
  "py_eq a b = (py_norm a = py_norm b)"

text \<open>\<^verbatim>\<open>obj[key]\<close> with a string key: only a dictionary can answer.\<close>

fun subscript :: "pyval \<Rightarrow> string \<Rightarrow> exn + pyval" where
  "subscript (PDict m) k = (case fmlookup m k of None \<Rightarrow> Inl KeyError | Some v \<Rightarrow> Inr v)"
| "subscript _ k = Inl TypeError"

text \<open>\<^verbatim>\<open>d[key]\<close> and \<^verbatim>\<open>d.get(key)\<close> on an object known to be a dictionary.\<close>

definition dict_item :: "pydict \<Rightarrow> string \<Rightarrow> exn + pyval" where
  "dict_item d k = (case fmlookup d k of None \<Rightarrow> Inl KeyError | Some v \<Rightarrow> Inr v)"

definition dict_get :: "pydict \<Rightarrow> string \<Rightarrow> pyval" where
  "dict_get d k = (case fmlookup d k of None \<Rightarrow> PNone | Some v \<Rightarrow> v)"

text \<open>\<^verbatim>\<open>obj.get(key)\<close> on any object: an attribute of dictionaries only.\<close>

fun py_get :: "pyval \<Rightarrow> string \<Rightarrow> exn + pyval" where
  "py_get (PDict m) k = Inr (dict_get m k)"
| "py_get _ k = Inl AttributeError"

text \<open>\<^verbatim>\<open>obj[0]\<close>. The keys of a JSON dictionary are strings, so \<^verbatim>\<open>0\<close> is never one.\<close>

fun subscript0 :: "pyval \<Rightarrow> exn + pyval" where
  "subscript0 (PList []) = Inl IndexError"
| "subscript0 (PList (x # xs)) = Inr x"
| "subscript0 (PStr []) = Inl IndexError"
| "subscript0 (PStr (c # cs)) = Inr (PStr [c])"
| "subscript0 (PDict m) = Inl KeyError"
| "subscript0 _ = Inl TypeError"

text \<open>
  The items that \<^verbatim>\<open>for x in obj\<close> visits. A string yields its characters and a dictionary
  its keys (Python yields them in insertion order, which a finite map does not record;
  the loops below subscript each item by a string and so fail on the first key, whichever
  it is).
\<close>

fun py_iter :: "pyval \<Rightarrow> exn + pyval list" where
  "py_iter (PList xs) = Inr xs"
| "py_iter (PStr s) = Inr (map (\<lambda>c. PStr [c]) s)"
| "py_iter (PDict m) = Inr (map PStr (sorted_list_of_fset (fmdom m)))"
| "py_iter _ = Inl TypeError"

text \<open>\<^verbatim>\<open>next(iter(xs))\<close> on a list.\<close>

definition py_next :: "'a list \<Rightarrow> exn + 'a" where
  "py_next xs = (case xs of [] \<Rightarrow> Inl StopIteration | x # _ \<Rightarrow> Inr x)"

text \<open>\<^verbatim>\<open>xs.remove(x)\<close>: the list without its first item equal to \<open>x\<close>.\<close>

fun py_remove :: "pyval \<Rightarrow> pyval list \<Rightarrow> exn + pyval list" where
  "py_remove x [] = Inl ValueError"
| "py_remove x (y # ys) =
     (if py_eq y x then Inr ys
      else (case py_remove x ys of Inl e \<Rightarrow> Inl e | Inr r \<Rightarrow> Inr (y # r)))"

text \<open>
  Modelled from the spec: \<^verbatim>\<open>dagster.utils.merge_dicts\<close> is imported by the module and is
  not among the sources. The spec (4.2, step 2) has each later dictionary override the
  copy of the matched container definition, so \<open>merge_dicts\<close> updates an empty
  dictionary with its arguments from left to right.
\<close>

definition merge_dicts :: "pydict list \<Rightarrow> pydict" where
  "merge_dicts ds = fold (\<lambda>d acc. acc ++\<^sub>f d) ds fmempty"

section \<open>DagsterEcsTaskConfig\<close>

text \<open>
  The dataclass. Python does not enforce the annotations of its fields (the module itself
  stores the string \<^verbatim>\<open>"ENABLED"\<close> in the \<^verbatim>\<open>bool\<close> field \<^verbatim>\<open>assign_public_ip\<close>), so every field
  holds a Python value. The fields carry the prefix \<open>cfg_\<close>: \<open>image\<close> is a constant of
  HOL, and the other names are those of the arguments of the functions below.
\<close>

record DagsterEcsTaskConfig =
  cfg_image :: pyval
  cfg_container_name :: pyval
  cfg_command :: pyval
  cfg_family :: pyval
  cfg_cluster :: pyval
  cfg_subnets :: pyval
  cfg_security_groups :: pyval
  cfg_execution_role_arn :: pyval
  cfg_task_role_arn :: pyval
  cfg_assign_public_ip :: pyval
  cfg_secrets :: pyval
  cfg_environment :: pyval
  cfg_log_configuration :: pyval

text \<open>
  The constructor that \<^verbatim>\<open>@dataclass\<close> generates takes the thirteen fields, none of which
  has a default value. A call by keywords that leaves one out, or names an unknown one,
  raises \<^verbatim>\<open>TypeError\<close>.
\<close>

definition DagsterEcsTaskConfig_fields :: "string list" where
  "DagsterEcsTaskConfig_fields =
     [''image'', ''container_name'', ''command'', ''family'', ''cluster'', ''subnets'',
      ''security_groups'', ''execution_role_arn'', ''task_role_arn'', ''assign_public_ip'',
      ''secrets'', ''environment'', ''log_configuration'']"

definition keyword :: "(string \<times> pyval) list \<Rightarrow> string \<Rightarrow> exn + pyval" where
  "keyword kwargs k = (case map_of kwargs k of None \<Rightarrow> Inl TypeError | Some v \<Rightarrow> Inr v)"

definition DagsterEcsTaskConfig_init :: "(string \<times> pyval) list \<Rightarrow> exn + DagsterEcsTaskConfig" where
  "DagsterEcsTaskConfig_init kwargs =
     (if \<not> list_all (\<lambda>k. k \<in> set DagsterEcsTaskConfig_fields) (map fst kwargs) then Inl TypeError
      else
        and_then (keyword kwargs ''image'') (\<lambda>v1.
        and_then (keyword kwargs ''container_name'') (\<lambda>v2.
        and_then (keyword kwargs ''command'') (\<lambda>v3.
        and_then (keyword kwargs ''family'') (\<lambda>v4.
        and_then (keyword kwargs ''cluster'') (\<lambda>v5.
        and_then (keyword kwargs ''subnets'') (\<lambda>v6.
        and_then (keyword kwargs ''security_groups'') (\<lambda>v7.
        and_then (keyword kwargs ''execution_role_arn'') (\<lambda>v8.
        and_then (keyword kwargs ''task_role_arn'') (\<lambda>v9.
        and_then (keyword kwargs ''assign_public_ip'') (\<lambda>v10.
        and_then (keyword kwargs ''secrets'') (\<lambda>v11.
        and_then (keyword kwargs ''environment'') (\<lambda>v12.
        and_then (keyword kwargs ''log_configuration'') (\<lambda>v13.
          Inr \<lparr> cfg_image = v1, cfg_container_name = v2, cfg_command = v3, cfg_family = v4,
                cfg_cluster = v5, cfg_subnets = v6, cfg_security_groups = v7,
                cfg_execution_role_arn = v8, cfg_task_role_arn = v9,
                cfg_assign_public_ip = v10, cfg_secrets = v11, cfg_environment = v12,
                cfg_log_configuration = v13 \<rparr>))))))))))))))"

definition network_configuration :: "DagsterEcsTaskConfig \<Rightarrow> pydict" where
  "network_configuration self =
     fmap_of_list
       [(''awsvpcConfiguration'',
         PDict (fmap_of_list
           [(''subnets'', cfg_subnets self),
            (''assignPublicIp'', cfg_assign_public_ip self),
            (''securityGroups'', cfg_security_groups self)]))]"

text \<open>\<^verbatim>\<open>{key: value} if value else {}\<close>, the optional parts that the module merges.\<close>

definition if_set :: "string \<Rightarrow> pyval \<Rightarrow> pydict" where
  "if_set k v = (if truthy v then fmap_of_list [(k, v)] else fmempty)"

definition task_definition :: "DagsterEcsTaskConfig \<Rightarrow> pydict" where
  "task_definition self =
     (let kwargs = fmap_of_list
            [(''family'', cfg_family self),
             (''requiresCompatibilities'', PList [PStr ''FARGATE'']),
             (''networkMode'', PStr ''awsvpc''),
             (''containerDefinitions'',
              PList [PDict (merge_dicts
                [fmap_of_list [(''name'', cfg_container_name self), (''image'', cfg_image self)],
                 if_set ''logConfiguration'' (cfg_log_configuration self),
                 if_set ''command'' (cfg_command self),
                 if_set ''secrets'' (cfg_secrets self),
                 if_set ''environment'' (cfg_environment self)])]),
             (''executionRoleArn'', cfg_execution_role_arn self),
             (''cpu'', PStr ''256''),
             (''memory'', PStr ''512'')]
      in if truthy (cfg_task_role_arn self)
         then kwargs ++\<^sub>f fmap_of_list [(''taskRoleArn'', cfg_task_role_arn self)]
         else kwargs)"

section \<open>The poller: current_ecs_task\<close>

definition BACKOFF_RETRIES :: nat where
  "BACKOFF_RETRIES = 9"

text \<open>
  The ECS client. Its answers change from one call to the next (the control plane is
  eventually consistent), so \<open>describe_tasks\<close> takes the number of calls made before
  this one beside the arguments of the call.
\<close>

record ecs_client =
  describe_tasks :: "nat \<Rightarrow> pyval \<Rightarrow> pyval \<Rightarrow> exn + pyval"
  members :: "string list"

text \<open>
  The inner function of \<^verbatim>\<open>current_ecs_task\<close>: the first task of the answer, and
  \<^verbatim>\<open>EcsNoTasksFound\<close> for any \<^verbatim>\<open>IndexError\<close> raised on the way.
\<close>

definition describe_task_or_raise :: "ecs_client \<Rightarrow> nat \<Rightarrow> pyval \<Rightarrow> pyval \<Rightarrow> exn + pyval" where
  "describe_task_or_raise ecs n task_arn cluster =
     (case and_then (describe_tasks ecs n (PList [task_arn]) cluster) (\<lambda>response.
           and_then (subscript response ''tasks'') subscript0) of
        Inl e \<Rightarrow> (if e = IndexError then Inl EcsNoTasksFound else Inl e)
      | Inr task \<Rightarrow> Inr task)"

text \<open>
  Modelled from the spec: \<^verbatim>\<open>dagster.utils.backoff.backoff\<close> is imported by the module and
  is not among the sources. The spec (4.3) has it call the function again after a wait,
  retry only on the listed exceptions, let any other exception through at once, and let
  the last retried exception through when the retries are exhausted. How often it calls
  is fixed by the module: it passes \<^verbatim>\<open>max_retries=BACKOFF_RETRIES\<close> and counts
  \<^verbatim>\<open>9 retries\<close> that poll \<^verbatim>\<open>for up to 51.1 seconds\<close>, which is nine waits that double from a
  tenth of a second. So there is a first call and then as many retries as
  \<^verbatim>\<open>max_retries\<close> allows, each after a wait: \<open>max_retries + 1\<close> calls at most. The
  function called is given the number of calls made so far; the result comes with the
  number of calls made. (The length of the waits is not modelled.)
\<close>

fun backoff_attempts :: "(nat \<Rightarrow> exn + 'a) \<Rightarrow> exn list \<Rightarrow> nat \<Rightarrow> nat \<Rightarrow> (exn + 'a) \<times> nat" where
  "backoff_attempts fn retry_on 0 calls = (fn calls, Suc calls)"
| "backoff_attempts fn retry_on (Suc left) calls =
     (case fn calls of
        Inr v \<Rightarrow> (Inr v, Suc calls)
      | Inl e \<Rightarrow>
          if e \<in> set retry_on then backoff_attempts fn retry_on left (Suc calls)
          else (Inl e, Suc calls))"

definition backoff :: "(nat \<Rightarrow> exn + 'a) \<Rightarrow> exn list \<Rightarrow> nat \<Rightarrow> (exn + 'a) \<times> nat" where
  "backoff fn retry_on max_retries = backoff_attempts fn retry_on max_retries 0"

definition current_ecs_task :: "ecs_client \<Rightarrow> pyval \<Rightarrow> pyval \<Rightarrow> (exn + pyval) \<times> nat" where
  "current_ecs_task ecs task_arn cluster =
     (case backoff (\<lambda>n. describe_task_or_raise ecs n task_arn cluster)
             [EcsNoTasksFound] BACKOFF_RETRIES of
        (Inl e, calls) \<Rightarrow>
          (if e = EcsNoTasksFound then (Inl EcsEventualConsistencyTimeout, calls)
           else (Inl e, calls))
      | (Inr task, calls) \<Rightarrow> (Inr task, calls))"

section \<open>The metadata resolver\<close>

text \<open>
  What the process sees of its host: the environment variables, and the metadata endpoint
  behind \<^verbatim>\<open>requests.get(url).json()\<close>, which gives the parsed JSON answer or raises.
\<close>

record host =
  os_environ :: "string \<Rightarrow> string option"
  requests_get_json :: "pyval \<Rightarrow> exn + pyval"

record CurrentEcsTaskMetadata =
  md_cluster :: pyval
  md_task_arn :: pyval

text \<open>\<^verbatim>\<open>os.environ.get\<close> gives \<^verbatim>\<open>None\<close> for a variable that is not set.\<close>

definition container_metadata_uri :: "host \<Rightarrow> pyval" where
  "container_metadata_uri h =
     (case os_environ h ''ECS_CONTAINER_METADATA_URI_V4'' of None \<Rightarrow> PNone | Some uri \<Rightarrow> PStr uri)"

text \<open>\<^verbatim>\<open>obj + "..."\<close>: only a string can be extended by a string.\<close>

fun py_add_str :: "pyval \<Rightarrow> string \<Rightarrow> exn + pyval" where
  "py_add_str (PStr s) t = Inr (PStr (s @ t))"
| "py_add_str _ t = Inl TypeError"

definition current_ecs_task_metadata :: "host \<Rightarrow> exn + CurrentEcsTaskMetadata" where
  "current_ecs_task_metadata h =
     and_then (py_add_str (container_metadata_uri h) ''/task'') (\<lambda>task_metadata_uri.
     and_then (requests_get_json h task_metadata_uri) (\<lambda>response.
     and_then (py_get response ''Cluster'') (\<lambda>cluster.
     and_then (py_get response ''TaskARN'') (\<lambda>task_arn.
       Inr \<lparr> md_cluster = cluster, md_task_arn = task_arn \<rparr>))))"

definition current_ecs_container_name :: "host \<Rightarrow> exn + pyval" where
  "current_ecs_container_name h =
     and_then (requests_get_json h (container_metadata_uri h)) (\<lambda>response.
       subscript response ''Name'')"

section \<open>The synthesizer: default_ecs_task_definition\<close>

text \<open>
  The list comprehension of the function: the containers whose name is the given one, in
  the order of the list. Python builds the whole list, so a container without a
  \<^verbatim>\<open>name\<close> raises wherever it stands.
\<close>

fun matching_containers :: "pyval \<Rightarrow> pyval list \<Rightarrow> exn + pyval list" where
  "matching_containers current_container_name [] = Inr []"
| "matching_containers current_container_name (container # rest) =
     (case subscript container ''name'' of
        Inl e \<Rightarrow> Inl e
      | Inr n \<Rightarrow>
          (case matching_containers current_container_name rest of
             Inl e \<Rightarrow> Inl e
           | Inr found \<Rightarrow>
               Inr (if py_eq n current_container_name then container # found else found)))"

text \<open>\<^verbatim>\<open>{**obj, ...}\<close> unpacks a mapping, and nothing else.\<close>

fun dict_unpack :: "pyval \<Rightarrow> exn + pydict" where
  "dict_unpack (PDict m) = Inr m"
| "dict_unpack _ = Inl TypeError"

text \<open>\<^verbatim>\<open>obj.remove(x)\<close>: a method of lists.\<close>

fun list_remove :: "pyval \<Rightarrow> pyval \<Rightarrow> exn + pyval list" where
  "list_remove (PList xs) x = py_remove x xs"
| "list_remove _ x = Inl AttributeError"

text \<open>
  The dictionary comprehension over \<^verbatim>\<open>expected_keys\<close>: the items of the current task
  definition under the keys that \<^verbatim>\<open>RegisterTaskDefinitionRequest\<close> has.
\<close>

definition expected_items :: "string list \<Rightarrow> pydict \<Rightarrow> pydict" where
  "expected_items expected_keys current_task_definition =
     fold (\<lambda>key acc. case fmlookup current_task_definition key of
                        None \<Rightarrow> acc
                      | Some v \<Rightarrow> fmupd key v acc)
          expected_keys fmempty"

text \<open>The container definition of the new task, merged from that of the current process.\<close>

definition new_container_definition ::
  "pydict \<Rightarrow> pyval \<Rightarrow> pyval \<Rightarrow> pyval \<Rightarrow> pyval \<Rightarrow> pyval \<Rightarrow> bool \<Rightarrow> pydict" where
  "new_container_definition container_definition image' container_name environment command
     secrets include_sidecars =
     merge_dicts
       [container_definition ++\<^sub>f fmap_of_list
          [(''name'', container_name),
           (''image'', image'),
           (''entryPoint'', PList []),
           (''command'', if truthy command then command else PList [])],
        if_set ''environment'' environment,
        if_set ''secrets'' secrets,
        if include_sidecars then fmempty else fmap_of_list [(''dependsOn'', PList [])]]"

text \<open>
  With \<^verbatim>\<open>include_sidecars\<close> the function removes from and appends to the list object that
  the current task definition holds, so the caller's document changes. The model returns
  the result of the call together with the current task definition as the call leaves it.
  An exception leaves it as it was: nothing is written before the last possible raise.
\<close>

definition default_ecs_task_definition ::
  "host \<Rightarrow> ecs_client \<Rightarrow> pyval \<Rightarrow> pydict \<Rightarrow> pyval \<Rightarrow> pyval \<Rightarrow> pyval \<Rightarrow> pyval \<Rightarrow> pyval \<Rightarrow> bool
     \<Rightarrow> (exn + pydict) \<times> pydict" where
  "default_ecs_task_definition h ecs family current_task_definition image' container_name
     environment command secrets include_sidecars =
     (case
        and_then (current_ecs_container_name h) (\<lambda>current_container_name.
        and_then (dict_item current_task_definition ''containerDefinitions'') (\<lambda>containers.
        and_then (py_iter containers) (\<lambda>items.
        and_then (matching_containers current_container_name items) (\<lambda>found.
        and_then (py_next found) (\<lambda>container_definition.
        let expected_keys = members ecs;
            task_definition = expected_items expected_keys current_task_definition
        in
        and_then (dict_unpack container_definition) (\<lambda>unpacked.
        let new_definition = new_container_definition unpacked image' container_name
              environment command secrets include_sidecars
        in
        if include_sidecars then
          and_then (list_remove (dict_get current_task_definition ''containerDefinitions'')
                      container_definition) (\<lambda>removed.
          let container_definitions = removed @ [PDict new_definition] in
          Inr (fmupd ''containerDefinitions'' (PList container_definitions)
                 (fmupd ''family'' family task_definition),
               fmupd ''containerDefinitions'' (PList container_definitions)
                 current_task_definition))
        else
          let container_definitions = [PDict new_definition] in
          Inr (fmupd ''containerDefinitions'' (PList container_definitions)
                 (fmupd ''family'' family task_definition),
               current_task_definition))))))) of
        Inl e \<Rightarrow> (Inl e, current_task_definition)
      | Inr (new_task_definition, left_behind) \<Rightarrow> (Inr new_task_definition, left_behind))"

section \<open>The projector: current_ecs_task_config\<close>

text \<open>
  \<^verbatim>\<open>ec2.NetworkInterface(id)\<close> is a resource whose attributes the module reads:
  \<^verbatim>\<open>association_attribute\<close> and \<^verbatim>\<open>groups\<close>.
\<close>

record network_interface =
  association_attribute :: pyval
  groups :: pyval

record ec2_resource =
  NetworkInterface :: "pyval \<Rightarrow> network_interface"

text \<open>The inner loop over the details of one attachment.\<close>

fun collect_details ::
  "ec2_resource \<Rightarrow> pyval list \<Rightarrow> network_interface list \<times> pyval list
     \<Rightarrow> exn + network_interface list \<times> pyval list" where
  "collect_details ec2 [] (enis, subnets) = Inr (enis, subnets)"
| "collect_details ec2 (detail # rest) (enis, subnets) =
     and_then (subscript detail ''name'') (\<lambda>n.
     and_then (if py_eq n (PStr ''subnetId'')
               then and_then (subscript detail ''value'') (\<lambda>v. Inr (subnets @ [v]))
               else Inr subnets) (\<lambda>subnets'.
     and_then (subscript detail ''name'') (\<lambda>n'.
     and_then (if py_eq n' (PStr ''networkInterfaceId'')
               then and_then (subscript detail ''value'') (\<lambda>v.
                      Inr (enis @ [NetworkInterface ec2 v]))
               else Inr enis) (\<lambda>enis'.
       collect_details ec2 rest (enis', subnets')))))"

text \<open>The outer loop over the attachments of the task.\<close>

fun collect_attachments ::
  "ec2_resource \<Rightarrow> pyval list \<Rightarrow> network_interface list \<times> pyval list
     \<Rightarrow> exn + network_interface list \<times> pyval list" where
  "collect_attachments ec2 [] acc = Inr acc"
| "collect_attachments ec2 (attachment # rest) acc =
     and_then (subscript attachment ''type'') (\<lambda>t.
     and_then (if py_eq t (PStr ''ElasticNetworkInterface'')
               then and_then (subscript attachment ''details'') (\<lambda>details.
                    and_then (py_iter details) (\<lambda>items.
                      collect_details ec2 items acc))
               else Inr acc) (\<lambda>acc'.
       collect_attachments ec2 rest acc'))"

text \<open>The loop over the groups of one interface.\<close>

fun collect_groups :: "pyval list \<Rightarrow> pyval list \<Rightarrow> exn + pyval list" where
  "collect_groups [] security_groups = Inr security_groups"
| "collect_groups (group' # rest) security_groups =
     and_then (subscript group' ''GroupId'') (\<lambda>group_id.
       collect_groups rest (security_groups @ [group_id]))"

text \<open>The loop over the interfaces.\<close>

fun inspect_enis :: "network_interface list \<Rightarrow> bool \<times> pyval list \<Rightarrow> exn + bool \<times> pyval list" where
  "inspect_enis [] (public_ip, security_groups) = Inr (public_ip, security_groups)"
| "inspect_enis (eni # rest) (public_ip, security_groups) =
     and_then (py_get (if truthy (association_attribute eni) then association_attribute eni
                       else PDict fmempty) ''PublicIp'') (\<lambda>ip.
     and_then (py_iter (groups eni)) (\<lambda>items.
     and_then (collect_groups items security_groups) (\<lambda>security_groups'.
       inspect_enis rest (if truthy ip then True else public_ip, security_groups'))))"

text \<open>
  Everything the function computes up to the call of the constructor: the keyword
  arguments that it passes.
\<close>

definition current_ecs_task_config_arguments ::
  "ec2_resource \<Rightarrow> pyval \<Rightarrow> pydict \<Rightarrow> pydict \<Rightarrow> pyval \<Rightarrow> pyval \<Rightarrow> pyval \<Rightarrow> pyval
     \<Rightarrow> exn + (string \<times> pyval) list" where
  "current_ecs_task_config_arguments ec2 cluster task task_def environment secrets
     container_name image' =
     and_then (dict_item task ''attachments'') (\<lambda>attachments.
     and_then (py_iter attachments) (\<lambda>items.
     and_then (collect_attachments ec2 items ([], [])) (\<lambda>(enis, subnets).
     and_then (inspect_enis enis (False, [])) (\<lambda>(public_ip, security_groups).
     let execution_role_arn = dict_get task_def ''executionRoleArn'';
         task_role_arn = dict_get task_def ''taskRoleArn''
     in
     and_then (dict_item task_def ''family'') (\<lambda>family.
       Inr [(''container_name'', container_name),
            (''image'', image'),
            (''family'', family),
            (''cluster'', cluster),
            (''subnets'', PList subnets),
            (''security_groups'', PList security_groups),
            (''execution_role_arn'', execution_role_arn),
            (''task_role_arn'', task_role_arn),
            (''assign_public_ip'', PStr (if public_ip then ''ENABLED'' else ''DISABLED'')),
            (''environment'', environment),
            (''secrets'', secrets)])))))"

definition current_ecs_task_config ::
  "ec2_resource \<Rightarrow> pyval \<Rightarrow> pydict \<Rightarrow> pydict \<Rightarrow> pyval \<Rightarrow> pyval \<Rightarrow> pyval \<Rightarrow> pyval
     \<Rightarrow> exn + DagsterEcsTaskConfig" where
  "current_ecs_task_config ec2 cluster task task_def environment secrets container_name image' =
     and_then (current_ecs_task_config_arguments ec2 cluster task task_def environment secrets
                 container_name image')
       DagsterEcsTaskConfig_init"

section \<open>Vocabulary of the statements\<close>

text \<open>
  A container definition has a name when \<^verbatim>\<open>container["name"]\<close> does not raise, and is
  named \<open>n\<close> when the comparison of the comprehension, \<^verbatim>\<open>container["name"] == n\<close>, holds.
\<close>

definition has_name :: "pyval \<Rightarrow> bool" where
  "has_name container = (case subscript container ''name'' of Inl e \<Rightarrow> False | Inr v \<Rightarrow> True)"

definition named :: "pyval \<Rightarrow> pyval \<Rightarrow> bool" where
  "named n container =
     (case subscript container ''name'' of Inl e \<Rightarrow> False | Inr v \<Rightarrow> py_eq v n)"

text \<open>
  An interface reports a public address when the test of the loop over the interfaces
  succeeds on it; its group identifiers are what the loop over its groups appends.
\<close>

definition has_public_ip :: "network_interface \<Rightarrow> bool" where
  "has_public_ip eni =
     (case py_get (if truthy (association_attribute eni) then association_attribute eni
                   else PDict fmempty) ''PublicIp'' of
        Inl e \<Rightarrow> False
      | Inr ip \<Rightarrow> truthy ip)"

definition group_ids :: "network_interface \<Rightarrow> pyval list" where
  "group_ids eni =
     (case and_then (py_iter (groups eni)) (\<lambda>items. collect_groups items []) of
        Inl e \<Rightarrow> []
      | Inr ids \<Rightarrow> ids)"

section \<open>Concrete inputs\<close>

text \<open>
  Four ECS clients: one that finds the task at its third answer, one that finds it at
  its tenth, one that never finds it, and one that the control plane turns away.
\<close>

definition task_reply :: "pyval list \<Rightarrow> exn + pyval" where
  "task_reply tasks = Inr (PDict (fmap_of_list [(''tasks'', PList tasks)]))"

definition running_task :: pyval where
  "running_task =
     PDict (fmap_of_list [(''taskArn'', PStr ''arn:task/1''), (''lastStatus'', PStr ''RUNNING'')])"

definition ecs_late :: ecs_client where
  "ecs_late =
     \<lparr> describe_tasks =
         (\<lambda>n tasks cluster. if n < 2 then task_reply [] else task_reply [running_task]),
       members = [] \<rparr>"

definition ecs_tenth :: ecs_client where
  "ecs_tenth =
     \<lparr> describe_tasks =
         (\<lambda>n tasks cluster. if n < 9 then task_reply [] else task_reply [running_task]),
       members = [] \<rparr>"

definition ecs_never :: ecs_client where
  "ecs_never = \<lparr> describe_tasks = (\<lambda>n tasks cluster. task_reply []), members = [] \<rparr>"

definition ecs_denied :: ecs_client where
  "ecs_denied =
     \<lparr> describe_tasks = (\<lambda>n tasks cluster. Inl (ExternalError ''AccessDeniedException'')),
       members = [] \<rparr>"

text \<open>
  A host whose metadata endpoint names the current container \<^verbatim>\<open>dagit\<close>, a client whose
  \<^verbatim>\<open>RegisterTaskDefinitionRequest\<close> has a few of the real members, and two current task
  definitions as \<^verbatim>\<open>describe_task_definition\<close> returns them, with the read-only keys
  \<^verbatim>\<open>revision\<close> and \<^verbatim>\<open>status\<close>: one with the container of the process alone, one with a
  log router beside it.
\<close>

definition host_dagit :: host where
  "host_dagit =
     \<lparr> os_environ = (\<lambda>name. if name = ''ECS_CONTAINER_METADATA_URI_V4''
                              then Some ''http://169.254.170.2/v4/abc'' else None),
       requests_get_json = (\<lambda>url. Inr (PDict (fmap_of_list [(''Name'', PStr ''dagit'')]))) \<rparr>"

definition ecs_registering :: ecs_client where
  "ecs_registering =
     \<lparr> describe_tasks = (\<lambda>n tasks cluster. task_reply []),
       members = [''family'', ''taskRoleArn'', ''executionRoleArn'', ''networkMode'',
                  ''containerDefinitions'', ''cpu'', ''memory''] \<rparr>"

definition dagit_container :: pyval where
  "dagit_container =
     PDict (fmap_of_list
       [(''name'', PStr ''dagit''),
        (''image'', PStr ''dagit:1''),
        (''entryPoint'', PList [PStr ''dagit'']),
        (''environment'',
         PList [PDict (fmap_of_list [(''name'', PStr ''STAGE''), (''value'', PStr ''prod'')])]),
        (''dependsOn'',
         PList [PDict (fmap_of_list
           [(''containerName'', PStr ''logs''), (''condition'', PStr ''START'')])])])"

definition logs_container :: pyval where
  "logs_container =
     PDict (fmap_of_list [(''name'', PStr ''logs''), (''image'', PStr ''fluentbit:2'')])"

definition current_alone :: pydict where
  "current_alone =
     fmap_of_list
       [(''family'', PStr ''dagit''),
        (''revision'', PInt 7),
        (''status'', PStr ''ACTIVE''),
        (''cpu'', PStr ''256''),
        (''containerDefinitions'', PList [dagit_container])]"

definition current_with_logs :: pydict where
  "current_with_logs =
     fmap_of_list
       [(''family'', PStr ''dagit''),
        (''revision'', PInt 7),
        (''status'', PStr ''ACTIVE''),
        (''cpu'', PStr ''256''),
        (''containerDefinitions'', PList [dagit_container, logs_container])]"

definition run_environment :: pyval where
  "run_environment =
     PList [PDict (fmap_of_list [(''name'', PStr ''RUN_ID''), (''value'', PStr ''r1'')])]"

text \<open>
  What the synthesizer makes of them for a container \<^verbatim>\<open>run\<close> with the image \<^verbatim>\<open>job:2\<close>: the
  container definition without and with the environment of the run, without and with
  sidecars.
\<close>

definition run_container :: "pyval \<Rightarrow> pyval \<Rightarrow> pyval" where
  "run_container environment depends_on =
     PDict (fmap_of_list
       [(''name'', PStr ''run''),
        (''image'', PStr ''job:2''),
        (''entryPoint'', PList []),
        (''command'', PList []),
        (''environment'', environment),
        (''dependsOn'', depends_on)])"

definition stage_environment :: pyval where
  "stage_environment =
     PList [PDict (fmap_of_list [(''name'', PStr ''STAGE''), (''value'', PStr ''prod'')])]"

definition depends_on_logs :: pyval where
  "depends_on_logs =
     PList [PDict (fmap_of_list
       [(''containerName'', PStr ''logs''), (''condition'', PStr ''START'')])]"

definition synthesized :: "pyval list \<Rightarrow> pydict" where
  "synthesized container_definitions =
     fmap_of_list
       [(''family'', PStr ''run''),
        (''cpu'', PStr ''256''),
        (''containerDefinitions'', PList container_definitions)]"

definition current_without_dagit :: pydict where
  "current_without_dagit =
     fmap_of_list
       [(''family'', PStr ''other''),
        (''containerDefinitions'', PList [logs_container])]"

text \<open>
  Hosts for the metadata resolver: one without the environment variable, one whose
  endpoint answers with an empty object, and one whose answer has the cluster alone.
\<close>

definition host_unset :: host where
  "host_unset =
     \<lparr> os_environ = (\<lambda>name. None),
       requests_get_json = (\<lambda>url. Inl (ExternalError ''MissingSchema'')) \<rparr>"

definition host_empty_answer :: host where
  "host_empty_answer =
     \<lparr> os_environ = (\<lambda>name. if name = ''ECS_CONTAINER_METADATA_URI_V4''
                              then Some ''http://169.254.170.2/v4/abc'' else None),
       requests_get_json = (\<lambda>url. Inr (PDict fmempty)) \<rparr>"

definition cluster_only :: pydict where
  "cluster_only = fmap_of_list [(''Cluster'', PStr ''default'')]"

definition host_cluster_only :: host where
  "host_cluster_only =
     \<lparr> os_environ = (\<lambda>name. if name = ''ECS_CONTAINER_METADATA_URI_V4''
                              then Some ''http://169.254.170.2/v4/abc'' else None),
       requests_get_json = (\<lambda>url. Inr (PDict cluster_only)) \<rparr>"

text \<open>
  The task of the spec's example for the projector: two network attachments, each with a
  subnet and an interface; the first interface has a public address and the group
  \<^verbatim>\<open>g1\<close>, the second no association and the group \<^verbatim>\<open>g2\<close>.
\<close>

definition eni_attachment :: "string \<Rightarrow> string \<Rightarrow> pyval" where
  "eni_attachment subnet eni =
     PDict (fmap_of_list
       [(''type'', PStr ''ElasticNetworkInterface''),
        (''details'', PList
          [PDict (fmap_of_list [(''name'', PStr ''subnetId''), (''value'', PStr subnet)]),
           PDict (fmap_of_list
             [(''name'', PStr ''networkInterfaceId''), (''value'', PStr eni)])])])"

definition observed_task :: pydict where
  "observed_task =
     fmap_of_list
       [(''attachments'', PList [eni_attachment ''subnet-1'' ''eni-1'',
                                  eni_attachment ''subnet-2'' ''eni-2''])]"

definition two_interfaces :: ec2_resource where
  "two_interfaces =
     \<lparr> NetworkInterface = (\<lambda>ident.
         if ident = PStr ''eni-1''
         then \<lparr> association_attribute =
                  PDict (fmap_of_list [(''PublicIp'', PStr ''203.0.113.7'')]),
                groups = PList [PDict (fmap_of_list [(''GroupId'', PStr ''g1'')])] \<rparr>
         else \<lparr> association_attribute = PNone,
                groups = PList [PDict (fmap_of_list [(''GroupId'', PStr ''g2'')])] \<rparr>) \<rparr>"

definition launched_from :: pydict where
  "launched_from =
     fmap_of_list [(''family'', PStr ''dagster''), (''executionRoleArn'', PStr ''arn:role/exec'')]"

section \<open>Basic facts\<close>

lemma and_then_Inl [simp]: "and_then (Inl e) f = Inl e"
  by (simp add: and_then_def)

lemma and_then_Inr [simp]: "and_then (Inr v) f = f v"
  by (simp add: and_then_def)

lemma and_then_eq_Inr: "and_then r f = Inr y \<longleftrightarrow> (\<exists>v. r = Inr v \<and> f v = Inr y)"
  by (cases r) simp_all

lemma py_eq_refl [simp]: "py_eq a a"
  by (simp add: py_eq_def)

lemma py_eq_sym: "py_eq a b \<Longrightarrow> py_eq b a"
  by (simp add: py_eq_def)

lemma py_eq_trans: "py_eq a b \<Longrightarrow> py_eq b c \<Longrightarrow> py_eq a c"
  by (simp add: py_eq_def)

lemma lookup_if_set: "fmlookup (if_set k v) k' = (if k' = k \<and> truthy v then Some v else None)"
  by (simp add: if_set_def)

lemma dom_if_set: "k' |\<in>| fmdom (if_set k v) \<longleftrightarrow> k' = k \<and> truthy v"
  by (simp add: if_set_def)

lemma merge_dicts_Nil: "merge_dicts [] = fmempty"
  by (simp add: merge_dicts_def)

lemma fold_add_start:
  "fold (\<lambda>d acc. acc ++\<^sub>f d) ds m = m ++\<^sub>f fold (\<lambda>d acc. acc ++\<^sub>f d) ds fmempty"
proof (induction ds arbitrary: m)
  case Nil
  then show ?case by simp
next
  case (Cons d ds)
  have "fold (\<lambda>d acc. acc ++\<^sub>f d) (d # ds) m
        = (m ++\<^sub>f d) ++\<^sub>f fold (\<lambda>d acc. acc ++\<^sub>f d) ds fmempty"
    using Cons.IH [of "m ++\<^sub>f d"] by simp
  moreover have "fold (\<lambda>d acc. acc ++\<^sub>f d) (d # ds) fmempty
        = d ++\<^sub>f fold (\<lambda>d acc. acc ++\<^sub>f d) ds fmempty"
    using Cons.IH [of "fmempty ++\<^sub>f d"] by simp
  ultimately show ?case by simp
qed

lemma merge_dicts_Cons: "merge_dicts (d # ds) = d ++\<^sub>f merge_dicts ds"
  unfolding merge_dicts_def using fold_add_start [of ds "fmempty ++\<^sub>f d"] by simp

section \<open>The task definition of a DagsterEcsTaskConfig\<close>

text \<open>
  C10. For every \<^verbatim>\<open>DagsterEcsTaskConfig\<close>, the document of \<^verbatim>\<open>task_definition()\<close> has
  \<^verbatim>\<open>requiresCompatibilities\<close> \<^verbatim>\<open>["FARGATE"]\<close>, \<^verbatim>\<open>networkMode\<close> \<^verbatim>\<open>"awsvpc"\<close>, \<^verbatim>\<open>cpu\<close> \<^verbatim>\<open>"256"\<close> and
  \<^verbatim>\<open>memory\<close> \<^verbatim>\<open>"512"\<close>. The key \<^verbatim>\<open>executionRoleArn\<close> is always there, with the value of the
  field, which may be \<^verbatim>\<open>None\<close>; \<^verbatim>\<open>taskRoleArn\<close> is there exactly when the task role is set.
  The document has one container definition, with the name and the image of the config,
  in which \<^verbatim>\<open>command\<close>, \<^verbatim>\<open>secrets\<close>, \<^verbatim>\<open>environment\<close> and \<^verbatim>\<open>logConfiguration\<close> are there exactly
  when the field of the config is not empty, and then with its value.
\<close>

theorem task_definition_document:
  "fmlookup (task_definition self) ''requiresCompatibilities'' = Some (PList [PStr ''FARGATE''])
   \<and> fmlookup (task_definition self) ''networkMode'' = Some (PStr ''awsvpc'')
   \<and> fmlookup (task_definition self) ''cpu'' = Some (PStr ''256'')
   \<and> fmlookup (task_definition self) ''memory'' = Some (PStr ''512'')
   \<and> fmlookup (task_definition self) ''executionRoleArn'' = Some (cfg_execution_role_arn self)
   \<and> fmlookup (task_definition self) ''taskRoleArn'' =
       (if truthy (cfg_task_role_arn self) then Some (cfg_task_role_arn self) else None)
   \<and> (\<exists>c. fmlookup (task_definition self) ''containerDefinitions'' = Some (PList [PDict c])
        \<and> fmlookup c ''name'' = Some (cfg_container_name self)
        \<and> fmlookup c ''image'' = Some (cfg_image self)
        \<and> fmlookup c ''command'' =
            (if truthy (cfg_command self) then Some (cfg_command self) else None)
        \<and> fmlookup c ''secrets'' =
            (if truthy (cfg_secrets self) then Some (cfg_secrets self) else None)
        \<and> fmlookup c ''environment'' =
            (if truthy (cfg_environment self) then Some (cfg_environment self) else None)
        \<and> fmlookup c ''logConfiguration'' =
            (if truthy (cfg_log_configuration self) then Some (cfg_log_configuration self)
             else None))"
  by (simp add: task_definition_def Let_def merge_dicts_Cons merge_dicts_Nil lookup_if_set
      dom_if_set)

section \<open>The poller\<close>

lemma backoff_attempts_success:
  "k \<le> left \<Longrightarrow> (\<forall>i<k. \<exists>e. fn (c + i) = Inl e \<and> e \<in> set retry_on) \<Longrightarrow> fn (c + k) = Inr v
   \<Longrightarrow> backoff_attempts fn retry_on left c = (Inr v, Suc (c + k))"
proof (induction left arbitrary: k c)
  case 0
  then show ?case by simp
next
  case (Suc left)
  show ?case
  proof (cases k)
    case 0
    with Suc.prems show ?thesis by simp
  next
    case (Suc j)
    from Suc.prems(2) Suc obtain e where e: "fn c = Inl e" "e \<in> set retry_on"
      by (metis add.right_neutral zero_less_Suc)
    have later: "\<forall>i<j. \<exists>e. fn (Suc c + i) = Inl e \<and> e \<in> set retry_on"
      using Suc.prems(2) Suc by (metis Suc_less_eq add_Suc_shift)
    have "backoff_attempts fn retry_on left (Suc c) = (Inr v, Suc (Suc c + j))"
      using Suc.IH [of j "Suc c"] Suc.prems(1,3) Suc later by simp
    with e Suc show ?thesis by simp
  qed
qed

lemma backoff_attempts_exhausted:
  "(\<forall>i\<le>left. fn (c + i) = Inl e) \<Longrightarrow> e \<in> set retry_on
   \<Longrightarrow> backoff_attempts fn retry_on left c = (Inl e, Suc (c + left))"
proof (induction left arbitrary: c)
  case 0
  then show ?case by simp
next
  case (Suc left)
  have first: "fn c = Inl e"
    using Suc.prems(1) by (metis add.right_neutral le0)
  have later: "\<forall>i\<le>left. fn (Suc c + i) = Inl e"
    using Suc.prems(1) by (metis Suc_le_mono add_Suc_shift)
  show ?case
    using Suc.IH [OF later Suc.prems(2)] first Suc.prems(2) by simp
qed

lemma backoff_attempts_other:
  "fn c = Inl e \<Longrightarrow> e \<notin> set retry_on \<Longrightarrow> backoff_attempts fn retry_on left c = (Inl e, Suc c)"
  by (cases left) simp_all

lemma describe_late:
  "describe_task_or_raise ecs_late n a c = (if n < 2 then Inl EcsNoTasksFound else Inr running_task)"
  by (simp add: describe_task_or_raise_def ecs_late_def task_reply_def)

lemma describe_tenth:
  "describe_task_or_raise ecs_tenth n a c = (if n < 9 then Inl EcsNoTasksFound else Inr running_task)"
  by (simp add: describe_task_or_raise_def ecs_tenth_def task_reply_def)

lemma describe_never: "describe_task_or_raise ecs_never n a c = Inl EcsNoTasksFound"
  by (simp add: describe_task_or_raise_def ecs_never_def task_reply_def)

lemma describe_denied:
  "describe_task_or_raise ecs_denied n a c = Inl (ExternalError ''AccessDeniedException'')"
  by (simp add: describe_task_or_raise_def ecs_denied_def)

text \<open>
  The result of \<^verbatim>\<open>current_ecs_task\<close> comes with the number of calls of
  \<^verbatim>\<open>describe_task_or_raise\<close> that were made. In general: a task found after \<open>k\<close>
  answers of \<^verbatim>\<open>EcsNoTasksFound\<close> is returned as long as \<open>k\<close> is at most
  \<^verbatim>\<open>BACKOFF_RETRIES\<close>, so also at the tenth call.
\<close>

lemma current_ecs_task_found:
  assumes "k \<le> BACKOFF_RETRIES"
    and "\<forall>i<k. describe_task_or_raise ecs i task_arn cluster = Inl EcsNoTasksFound"
    and "describe_task_or_raise ecs k task_arn cluster = Inr task"
  shows "current_ecs_task ecs task_arn cluster = (Inr task, k + 1)"
proof -
  have "backoff_attempts (\<lambda>n. describe_task_or_raise ecs n task_arn cluster) [EcsNoTasksFound]
          BACKOFF_RETRIES 0 = (Inr task, Suc (0 + k))"
    by (rule backoff_attempts_success) (use assms in auto)
  then show ?thesis
    by (simp add: current_ecs_task_def backoff_def)
qed

lemma current_ecs_task_tenth_call:
  "current_ecs_task ecs_tenth (PStr ''arn:task/1'') (PStr ''default'') = (Inr running_task, 10)"
  using current_ecs_task_found [of 9 ecs_tenth "PStr ''arn:task/1''" "PStr ''default''"
          running_task]
  by (simp add: describe_tenth BACKOFF_RETRIES_def)

text \<open>
  C1, as the code has it. \<^verbatim>\<open>BACKOFF_RETRIES\<close> counts retries, not calls: after the first
  call the poller retries nine times. A client that never finds the task is asked ten
  times before \<^verbatim>\<open>EcsEventualConsistencyTimeout\<close> is raised, not nine times.
\<close>

theorem current_ecs_task_poller_counterexample:
  "current_ecs_task ecs_never (PStr ''arn:task/1'') (PStr ''default'')
     = (Inl EcsEventualConsistencyTimeout, 10)
   \<and> snd (current_ecs_task ecs_never (PStr ''arn:task/1'') (PStr ''default'')) \<noteq> 9"
proof -
  have "backoff_attempts
          (\<lambda>n. describe_task_or_raise ecs_never n (PStr ''arn:task/1'') (PStr ''default''))
          [EcsNoTasksFound] 9 0 = (Inl EcsNoTasksFound, Suc (0 + 9))"
    by (rule backoff_attempts_exhausted) (simp_all add: describe_never)
  then show ?thesis
    by (simp add: current_ecs_task_def backoff_def BACKOFF_RETRIES_def)
qed

text \<open>
  C1, amended. If the first \<open>k\<close> calls raise \<^verbatim>\<open>EcsNoTasksFound\<close> and the next one
  returns a task, with \<open>k < 9\<close>, the task is returned after \<open>k + 1\<close> calls. If every call
  raises \<^verbatim>\<open>EcsNoTasksFound\<close>, the poller raises \<^verbatim>\<open>EcsEventualConsistencyTimeout\<close> after 10
  calls: the first one and 9 retries. If the first call raises any other exception, that
  exception comes out after 1 call.
\<close>

theorem current_ecs_task_poller:
  "(k < 9 \<and> (\<forall>i<k. describe_task_or_raise ecs i task_arn cluster = Inl EcsNoTasksFound)
      \<and> describe_task_or_raise ecs k task_arn cluster = Inr task
      \<longrightarrow> current_ecs_task ecs task_arn cluster = (Inr task, k + 1))
   \<and> ((\<forall>i. describe_task_or_raise ecs i task_arn cluster = Inl EcsNoTasksFound)
      \<longrightarrow> current_ecs_task ecs task_arn cluster = (Inl EcsEventualConsistencyTimeout, 10))
   \<and> (describe_task_or_raise ecs 0 task_arn cluster = Inl e \<and> e \<noteq> EcsNoTasksFound
      \<longrightarrow> current_ecs_task ecs task_arn cluster = (Inl e, 1))"
proof (intro conjI impI)
  assume h: "k < 9 \<and> (\<forall>i<k. describe_task_or_raise ecs i task_arn cluster = Inl EcsNoTasksFound)
      \<and> describe_task_or_raise ecs k task_arn cluster = Inr task"
  have "backoff_attempts (\<lambda>n. describe_task_or_raise ecs n task_arn cluster) [EcsNoTasksFound] 9 0
        = (Inr task, Suc (0 + k))"
    by (rule backoff_attempts_success) (use h in auto)
  then show "current_ecs_task ecs task_arn cluster = (Inr task, k + 1)"
    by (simp add: current_ecs_task_def backoff_def BACKOFF_RETRIES_def)
next
  assume h: "\<forall>i. describe_task_or_raise ecs i task_arn cluster = Inl EcsNoTasksFound"
  have "backoff_attempts (\<lambda>n. describe_task_or_raise ecs n task_arn cluster) [EcsNoTasksFound] 9 0
        = (Inl EcsNoTasksFound, Suc (0 + 9))"
    by (rule backoff_attempts_exhausted) (use h in auto)
  then show "current_ecs_task ecs task_arn cluster = (Inl EcsEventualConsistencyTimeout, 10)"
    by (simp add: current_ecs_task_def backoff_def BACKOFF_RETRIES_def)
next
  assume h: "describe_task_or_raise ecs 0 task_arn cluster = Inl e \<and> e \<noteq> EcsNoTasksFound"
  have "backoff_attempts (\<lambda>n. describe_task_or_raise ecs n task_arn cluster) [EcsNoTasksFound] 9 0
        = (Inl e, Suc 0)"
    by (rule backoff_attempts_other) (use h in auto)
  then show "current_ecs_task ecs task_arn cluster = (Inl e, 1)"
    using h by (simp add: current_ecs_task_def backoff_def BACKOFF_RETRIES_def)
qed

theorem current_ecs_task_poller_witness:
  "current_ecs_task ecs_late (PStr ''arn:task/1'') (PStr ''default'') = (Inr running_task, 3)
   \<and> current_ecs_task ecs_never (PStr ''arn:task/2'') (PStr ''default'')
       = (Inl EcsEventualConsistencyTimeout, 10)
   \<and> current_ecs_task ecs_denied (PStr ''arn:task/1'') (PStr ''default'')
       = (Inl (ExternalError ''AccessDeniedException''), 1)"
  using current_ecs_task_poller [of 2 ecs_late "PStr ''arn:task/1''" "PStr ''default''" running_task
          "ExternalError ''none''"]
        current_ecs_task_poller [of 0 ecs_never "PStr ''arn:task/2''" "PStr ''default''" PNone
          "ExternalError ''none''"]
        current_ecs_task_poller [of 0 ecs_denied "PStr ''arn:task/1''" "PStr ''default''" PNone
          "ExternalError ''AccessDeniedException''"]
  by (simp add: describe_late describe_never describe_denied)

section \<open>The synthesizer\<close>

lemma named_has_name: "named n c \<Longrightarrow> has_name c"
  by (simp add: named_def has_name_def split: sum.splits)

lemma has_name_dict: "has_name c \<Longrightarrow> \<exists>d v. c = PDict d \<and> fmlookup d ''name'' = Some v"
  by (cases c) (auto simp: has_name_def split: option.splits)

lemma named_dict: "named n (PDict d) \<longleftrightarrow> (\<exists>v. fmlookup d ''name'' = Some v \<and> py_eq v n)"
  by (auto simp: named_def split: option.splits)

lemma named_cong: "py_eq x c \<Longrightarrow> has_name x \<Longrightarrow> named n c \<Longrightarrow> named n x"
proof -
  assume eq: "py_eq x c" and hx: "has_name x" and nc: "named n c"
  from hx obtain xm xv where x: "x = PDict xm" "fmlookup xm ''name'' = Some xv"
    using has_name_dict by blast
  from named_has_name [OF nc] obtain d v where c: "c = PDict d" "fmlookup d ''name'' = Some v"
    using has_name_dict by blast
  from eq x c have "fmmap py_norm xm = fmmap py_norm d"
    by (simp add: py_eq_def)
  then have "fmlookup (fmmap py_norm xm) ''name'' = fmlookup (fmmap py_norm d) ''name''"
    by simp
  with x c have "py_norm xv = py_norm v"
    by simp
  moreover from nc c have "py_eq v n"
    by (simp add: named_dict)
  ultimately have "py_eq xv n"
    by (simp add: py_eq_def)
  with x show "named n x"
    by (simp add: named_dict)
qed

lemma matching_containers_Inr:
  "matching_containers cur items = Inr found \<longleftrightarrow>
     (\<forall>c\<in>set items. has_name c) \<and> found = filter (named cur) items"
proof (induction items arbitrary: found)
  case Nil
  then show ?case by auto
next
  case (Cons c items)
  show ?case
  proof (cases "subscript c ''name''")
    case (Inl e)
    then show ?thesis by (simp add: has_name_def)
  next
    case (Inr v)
    then have hc: "has_name c" and nc: "named cur c = py_eq v cur"
      by (simp_all add: has_name_def named_def)
    show ?thesis
    proof (cases "matching_containers cur items")
      case (Inl e)
      with Cons.IH Inr show ?thesis by auto
    next
      case r: (Inr rest)
      with Cons.IH [of rest] have "(\<forall>c\<in>set items. has_name c)" "rest = filter (named cur) items"
        by simp_all
      with Inr r hc nc show ?thesis by auto
    qed
  qed
qed

lemma py_remove_first:
  "\<forall>x\<in>set pre. \<not> py_eq x c \<Longrightarrow> py_remove c (pre @ c # post) = Inr (pre @ post)"
  by (induction pre) (simp_all add: py_eq_def)

lemma lookup_fold_expected:
  "fmlookup (fold (\<lambda>key acc. case fmlookup td key of None \<Rightarrow> acc | Some v \<Rightarrow> fmupd key v acc) ks acc) k
   = (if k \<in> set ks \<and> fmlookup td k \<noteq> None then fmlookup td k else fmlookup acc k)"
  by (induction ks arbitrary: acc) (auto split: option.splits)

lemma lookup_expected_items:
  "fmlookup (expected_items ks td) k = (if k \<in> set ks then fmlookup td k else None)"
  by (simp add: expected_items_def lookup_fold_expected)

lemma dom_expected_items: "fmdom' (expected_items ks td) = fmdom' td \<inter> set ks"
  by (auto simp: fmdom'_alt_def fmlookup_dom_iff lookup_expected_items split: if_splits)

lemma default_ecs_task_definition_returns:
  assumes cur: "current_ecs_container_name h = Inr cur"
    and td: "fmlookup td ''containerDefinitions'' = Some (PList (pre @ PDict d # post))"
    and pre: "\<forall>c\<in>set pre. has_name c \<and> \<not> named cur c"
    and d: "named cur (PDict d)"
    and post: "\<forall>c\<in>set post. has_name c"
  shows "default_ecs_task_definition h ecs family td image' container_name environment command
           secrets include_sidecars =
         (let new_definition = new_container_definition d image' container_name environment
                command secrets include_sidecars;
              container_definitions =
                (if include_sidecars then pre @ post @ [PDict new_definition]
                 else [PDict new_definition])
          in (Inr (fmupd ''containerDefinitions'' (PList container_definitions)
                     (fmupd ''family'' family (expected_items (members ecs) td))),
              if include_sidecars
              then fmupd ''containerDefinitions'' (PList container_definitions) td
              else td))"
proof -
  have all: "\<forall>c\<in>set (pre @ PDict d # post). has_name c"
    using pre d post by (auto dest: named_has_name)
  have "filter (named cur) (pre @ PDict d # post) = PDict d # filter (named cur) post"
    using pre d by simp
  with all have found: "matching_containers cur (pre @ PDict d # post)
        = Inr (PDict d # filter (named cur) post)"
    by (simp add: matching_containers_Inr)
  have "\<forall>x\<in>set pre. \<not> py_eq x (PDict d)"
    using pre d named_cong by blast
  then have removed: "py_remove (PDict d) (pre @ PDict d # post) = Inr (pre @ post)"
    by (rule py_remove_first)
  show ?thesis
    by (simp add: default_ecs_task_definition_def cur td dict_item_def dict_get_def found
        py_next_def removed Let_def)
qed

lemma default_ecs_task_definition_raises:
  "fst (default_ecs_task_definition h ecs family td image' container_name environment command
          secrets include_sidecars) = Inl e
   \<Longrightarrow> snd (default_ecs_task_definition h ecs family td image' container_name environment command
          secrets include_sidecars) = td"
  by (auto simp: default_ecs_task_definition_def split: sum.splits prod.splits)

lemma py_iter_has_name:
  "py_iter v = Inr items \<Longrightarrow> \<forall>c\<in>set items. has_name c \<Longrightarrow> items \<noteq> [] \<Longrightarrow> v = PList items"
  by (cases v) (auto simp: has_name_def neq_Nil_conv)

lemma default_ecs_task_definition_Inr:
  assumes "fst (default_ecs_task_definition h ecs family td image' container_name environment
             command secrets include_sidecars) = Inr new_task_definition"
  obtains cur pre d post where
    "current_ecs_container_name h = Inr cur"
    "fmlookup td ''containerDefinitions'' = Some (PList (pre @ PDict d # post))"
    "\<forall>c\<in>set pre. has_name c \<and> \<not> named cur c"
    "named cur (PDict d)"
    "\<forall>c\<in>set post. has_name c"
proof -
  from assms obtain cur where cur: "current_ecs_container_name h = Inr cur"
    by (cases "current_ecs_container_name h") (simp_all add: default_ecs_task_definition_def)
  from assms cur obtain containers where
    containers: "fmlookup td ''containerDefinitions'' = Some containers"
    by (cases "fmlookup td ''containerDefinitions''")
       (simp_all add: default_ecs_task_definition_def dict_item_def)
  from assms cur containers obtain items where items: "py_iter containers = Inr items"
    by (cases "py_iter containers")
       (simp_all add: default_ecs_task_definition_def dict_item_def)
  from assms cur containers items obtain found where
    found: "matching_containers cur items = Inr found"
    by (cases "matching_containers cur items")
       (simp_all add: default_ecs_task_definition_def dict_item_def)
  from assms cur containers items found obtain c rest where c: "found = c # rest"
    by (cases found) (simp_all add: default_ecs_task_definition_def dict_item_def py_next_def)
  from found have named_all: "\<forall>c\<in>set items. has_name c" and filt: "found = filter (named cur) items"
    by (simp_all add: matching_containers_Inr)
  from filt c obtain pre post where
    split: "items = pre @ c # post" "\<forall>u\<in>set pre. \<not> named cur u" "named cur c"
    by (metis filter_eq_Cons_iff)
  from named_has_name [OF split(3)] obtain d where d: "c = PDict d"
    using has_name_dict by blast
  have "containers = PList items"
    using py_iter_has_name [OF items named_all] split(1) by simp
  with containers split d have "fmlookup td ''containerDefinitions'' = Some (PList (pre @ PDict d # post))"
    by simp
  moreover have "\<forall>c\<in>set pre. has_name c \<and> \<not> named cur c"
    using named_all split by simp
  moreover have "named cur (PDict d)"
    using split d by simp
  moreover have "\<forall>c\<in>set post. has_name c"
    using named_all split by simp
  ultimately show thesis
    using that cur by blast
qed

lemma current_name_dagit: "current_ecs_container_name host_dagit = Inr (PStr ''dagit'')"
  by (simp add: current_ecs_container_name_def host_dagit_def)

lemma lookup_new_container_definition:
  "fmlookup (new_container_definition d image' container_name environment command secrets
               include_sidecars) k =
     (if k = ''dependsOn'' \<and> \<not> include_sidecars then Some (PList [])
      else if k = ''secrets'' \<and> truthy secrets then Some secrets
      else if k = ''environment'' \<and> truthy environment then Some environment
      else if k = ''name'' then Some container_name
      else if k = ''image'' then Some image'
      else if k = ''entryPoint'' then Some (PList [])
      else if k = ''command'' then Some (if truthy command then command else PList [])
      else fmlookup d k)"
  by (simp add: new_container_definition_def merge_dicts_Cons merge_dicts_Nil lookup_if_set
      dom_if_set)

text \<open>
  C2. Take a current task definition whose container definitions all have a name, exactly
  one of them the name of the current container. Without sidecars the call returns a task
  definition with one container definition: its \<^verbatim>\<open>name\<close> is the requested container name,
  its \<^verbatim>\<open>image\<close> the requested image, and its \<^verbatim>\<open>entryPoint\<close> and \<^verbatim>\<open>dependsOn\<close> are empty lists.
  The current task definition is left as it was.
\<close>

theorem synthesize_without_sidecars:
  assumes "current_ecs_container_name h = Inr cur"
    and "fmlookup td ''containerDefinitions'' = Some (PList cs)"
    and "\<forall>c\<in>set cs. has_name c"
    and "length (filter (named cur) cs) = 1"
  shows "\<exists>out c.
           default_ecs_task_definition h ecs family td image' container_name environment
             command secrets False = (Inr out, td)
           \<and> fmlookup out ''containerDefinitions'' = Some (PList [PDict c])
           \<and> fmlookup c ''name'' = Some container_name
           \<and> fmlookup c ''image'' = Some image'
           \<and> fmlookup c ''entryPoint'' = Some (PList [])
           \<and> fmlookup c ''dependsOn'' = Some (PList [])"
proof -
  from assms(4) obtain c0 where "filter (named cur) cs = [c0]"
    by (cases "filter (named cur) cs") simp_all
  then obtain pre post where
    split: "cs = pre @ c0 # post" "\<forall>u\<in>set pre. \<not> named cur u" "named cur c0"
    by (metis filter_eq_Cons_iff)
  from named_has_name [OF split(3)] obtain d where d: "c0 = PDict d"
    using has_name_dict by blast
  have "default_ecs_task_definition h ecs family td image' container_name environment
          command secrets False =
        (Inr (fmupd ''containerDefinitions''
                (PList [PDict (new_container_definition d image' container_name environment
                                 command secrets False)])
                (fmupd ''family'' family (expected_items (members ecs) td))), td)"
    using default_ecs_task_definition_returns [of h cur td pre d post ecs family image'
        container_name environment command secrets False] assms(1,2,3) split d
    by (simp add: Let_def)
  then show ?thesis
    by (simp add: lookup_new_container_definition)
qed

theorem synthesize_without_sidecars_witness:
  "\<exists>out c.
     default_ecs_task_definition host_dagit ecs_registering (PStr ''run'') current_alone
       (PStr ''job:2'') (PStr ''run'') run_environment PNone PNone False = (Inr out, current_alone)
     \<and> fmlookup out ''containerDefinitions'' = Some (PList [PDict c])
     \<and> fmlookup c ''name'' = Some (PStr ''run'')
     \<and> fmlookup c ''image'' = Some (PStr ''job:2'')
     \<and> fmlookup c ''entryPoint'' = Some (PList [])
     \<and> fmlookup c ''dependsOn'' = Some (PList [])"
proof (rule synthesize_without_sidecars [of host_dagit "PStr ''dagit''" current_alone
        "[dagit_container]"])
  show "current_ecs_container_name host_dagit = Inr (PStr ''dagit'')"
    by (rule current_name_dagit)
  show "fmlookup current_alone ''containerDefinitions'' = Some (PList [dagit_container])"
    by (simp add: current_alone_def)
  show "\<forall>c\<in>set [dagit_container]. has_name c"
    by (simp add: has_name_def dagit_container_def)
  show "length (filter (named (PStr ''dagit'')) [dagit_container]) = 1"
    by (simp add: named_def dagit_container_def py_eq_def)
qed

text \<open>
  C6. When the container definitions of the current task definition all have a name and
  none has the name of the current container, the call raises: \<^verbatim>\<open>next\<close> finds the list of
  matches empty. That \<^verbatim>\<open>StopIteration\<close> is what the spec calls ContainerNotFound. The
  current task definition is left as it was, with or without sidecars.
\<close>

theorem synthesize_no_container:
  assumes "current_ecs_container_name h = Inr cur"
    and "fmlookup td ''containerDefinitions'' = Some (PList cs)"
    and "\<forall>c\<in>set cs. has_name c \<and> \<not> named cur c"
  shows "default_ecs_task_definition h ecs family td image' container_name environment
             command secrets include_sidecars = (Inl StopIteration, td)"
proof -
  have "filter (named cur) cs = []"
    using assms(3) by (simp add: filter_empty_conv)
  then have "matching_containers cur cs = Inr []"
    using assms(3) by (simp add: matching_containers_Inr)
  then show ?thesis
    by (simp add: default_ecs_task_definition_def assms(1,2) dict_item_def py_next_def)
qed

theorem synthesize_no_container_witness:
  "default_ecs_task_definition host_dagit ecs_registering (PStr ''run'')
     (fmap_of_list [(''family'', PStr ''other''), (''containerDefinitions'', PList [logs_container])])
     (PStr ''job:2'') (PStr ''run'') run_environment PNone PNone True
   = (Inl StopIteration,
      fmap_of_list [(''family'', PStr ''other''), (''containerDefinitions'', PList [logs_container])])"
proof (rule synthesize_no_container [of host_dagit "PStr ''dagit''" _ "[logs_container]"])
  show "current_ecs_container_name host_dagit = Inr (PStr ''dagit'')"
    by (rule current_name_dagit)
  show "fmlookup (fmap_of_list [(''family'', PStr ''other''),
          (''containerDefinitions'', PList [logs_container])]) ''containerDefinitions''
        = Some (PList [logs_container])"
    by simp
  show "\<forall>c\<in>set [logs_container]. has_name c \<and> \<not> named (PStr ''dagit'') c"
    by (simp add: has_name_def named_def logs_container_def py_eq_def)
qed

lemma default_ecs_task_definition_cases:
  obtains (raises) e where
      "default_ecs_task_definition h ecs family td image' container_name environment
         command secrets include_sidecars = (Inl e, td)"
  | (returns) cur pre d post where
      "current_ecs_container_name h = Inr cur"
      "fmlookup td ''containerDefinitions'' = Some (PList (pre @ PDict d # post))"
      "\<forall>c\<in>set pre. has_name c \<and> \<not> named cur c"
      "named cur (PDict d)"
      "\<forall>c\<in>set post. has_name c"
      "default_ecs_task_definition h ecs family td image' container_name environment
         command secrets include_sidecars =
       (Inr (fmupd ''containerDefinitions''
               (PList (if include_sidecars
                       then pre @ post @ [PDict (new_container_definition d image'
                              container_name environment command secrets include_sidecars)]
                       else [PDict (new_container_definition d image'
                              container_name environment command secrets include_sidecars)]))
               (fmupd ''family'' family (expected_items (members ecs) td))),
        if include_sidecars
        then fmupd ''containerDefinitions''
               (PList (pre @ post @ [PDict (new_container_definition d image'
                         container_name environment command secrets include_sidecars)])) td
        else td)"
proof (cases "fst (default_ecs_task_definition h ecs family td image' container_name environment
         command secrets include_sidecars)")
  case (Inl e)
  with default_ecs_task_definition_raises [OF Inl] raises show ?thesis
    by (metis prod.collapse)
next
  case (Inr out)
  from default_ecs_task_definition_Inr [OF Inr] obtain cur pre d post where
    h: "current_ecs_container_name h = Inr cur"
       "fmlookup td ''containerDefinitions'' = Some (PList (pre @ PDict d # post))"
       "\<forall>c\<in>set pre. has_name c \<and> \<not> named cur c"
       "named cur (PDict d)"
       "\<forall>c\<in>set post. has_name c"
    by blast
  show ?thesis
    using returns [OF h] default_ecs_task_definition_returns [OF h, of ecs family image'
        container_name environment command secrets include_sidecars]
    by (simp add: Let_def)
qed

text \<open>The calls on the concrete inputs, evaluated.\<close>

lemma alone_inherits:
  "default_ecs_task_definition host_dagit ecs_registering (PStr ''run'') current_alone
     (PStr ''job:2'') (PStr ''run'') (PList []) PNone PNone False
   = (Inr (synthesized [run_container stage_environment (PList [])]), current_alone)"
  by code_simp

lemma with_logs_run:
  "default_ecs_task_definition host_dagit ecs_registering (PStr ''run'') current_with_logs
     (PStr ''job:2'') (PStr ''run'') run_environment PNone PNone True
   = (Inr (synthesized [logs_container, run_container run_environment depends_on_logs]),
      fmupd ''containerDefinitions''
        (PList [logs_container, run_container run_environment depends_on_logs])
        current_with_logs)"
  by code_simp

lemma without_dagit_raises:
  "default_ecs_task_definition host_dagit ecs_registering (PStr ''run'') current_without_dagit
     (PStr ''job:2'') (PStr ''run'') run_environment PNone PNone True
   = (Inl StopIteration, current_without_dagit)"
  by code_simp

text \<open>
  C3, as the code has it. The synthesized container definition starts as a copy of the
  matched one, so an empty or absent \<^verbatim>\<open>environment\<close> (or \<^verbatim>\<open>secrets\<close>) argument leaves the key
  as the matched container definition has it: absent only when it is absent there. The
  claim fails on a current container that has an environment: the call below passes an
  empty list and the synthesized container carries the environment of \<^verbatim>\<open>dagit\<close>.
\<close>

theorem synthesize_environment_counterexample:
  "fst (default_ecs_task_definition host_dagit ecs_registering (PStr ''run'') current_alone
          (PStr ''job:2'') (PStr ''run'') (PList []) PNone PNone False)
   = Inr (synthesized [run_container stage_environment (PList [])])
   \<and> subscript (run_container stage_environment (PList [])) ''environment''
       = Inr stage_environment"
  by code_simp

text \<open>
  C3, amended. Whenever the call returns, the synthesized container definition is the
  last of the output's list, and there \<^verbatim>\<open>environment\<close> is the argument when the argument
  is not empty, and what the matched container definition has under that key (nothing,
  when it has none) otherwise; likewise \<^verbatim>\<open>secrets\<close>. The matched container definition is
  the first one in the current task definition named as the current container.
\<close>

theorem synthesize_environment_secrets:
  assumes "fst (default_ecs_task_definition h ecs family td image' container_name environment
             command secrets include_sidecars) = Inr out"
  shows "\<exists>cur pre d post kept new.
           current_ecs_container_name h = Inr cur
           \<and> fmlookup td ''containerDefinitions'' = Some (PList (pre @ PDict d # post))
           \<and> (\<forall>c\<in>set pre. \<not> named cur c) \<and> named cur (PDict d)
           \<and> fmlookup out ''containerDefinitions'' = Some (PList (kept @ [PDict new]))
           \<and> fmlookup new ''environment'' =
               (if truthy environment then Some environment else fmlookup d ''environment'')
           \<and> fmlookup new ''secrets'' =
               (if truthy secrets then Some secrets else fmlookup d ''secrets'')"
proof (cases rule: default_ecs_task_definition_cases [of h ecs family td image' container_name
         environment command secrets include_sidecars])
  case (raises e)
  with assms show ?thesis by simp
next
  case (returns cur pre d post)
  let ?new = "new_container_definition d image' container_name environment command secrets
                include_sidecars"
  from returns(6) assms have
    "fmlookup out ''containerDefinitions'' =
       Some (PList ((if include_sidecars then pre @ post else []) @ [PDict ?new]))"
    by auto
  moreover have "fmlookup ?new ''environment'' =
       (if truthy environment then Some environment else fmlookup d ''environment'')"
    by (simp add: lookup_new_container_definition)
  moreover have "fmlookup ?new ''secrets'' =
       (if truthy secrets then Some secrets else fmlookup d ''secrets'')"
    by (simp add: lookup_new_container_definition)
  ultimately show ?thesis
    using returns(1,2,3,4) by blast
qed

theorem synthesize_environment_secrets_witness:
  "\<exists>cur pre d post kept new.
     current_ecs_container_name host_dagit = Inr cur
     \<and> fmlookup current_alone ''containerDefinitions'' = Some (PList (pre @ PDict d # post))
     \<and> (\<forall>c\<in>set pre. \<not> named cur c) \<and> named cur (PDict d)
     \<and> fmlookup (synthesized [run_container stage_environment (PList [])])
         ''containerDefinitions'' = Some (PList (kept @ [PDict new]))
     \<and> fmlookup new ''environment'' =
         (if truthy (PList []) then Some (PList []) else fmlookup d ''environment'')
     \<and> fmlookup new ''secrets'' =
         (if truthy PNone then Some PNone else fmlookup d ''secrets'')"
proof -
  have returned:
    "fst (default_ecs_task_definition host_dagit ecs_registering (PStr ''run'') current_alone
            (PStr ''job:2'') (PStr ''run'') (PList []) PNone PNone False)
     = Inr (synthesized [run_container stage_environment (PList [])])"
    by (simp add: alone_inherits)
  show ?thesis
    by (rule synthesize_environment_secrets [OF returned])
qed

text \<open>
  C5. With sidecars, whenever the call returns, the container definitions of the output
  are those of the current task definition without the matched one (the first that is
  named as the current container), in their order, followed by the synthesized one: as
  many as before. The synthesized one has the requested name and image, and its
  \<^verbatim>\<open>dependsOn\<close> is that of the matched container definition.
\<close>

theorem synthesize_with_sidecars:
  assumes "fst (default_ecs_task_definition h ecs family td image' container_name environment
             command secrets True) = Inr out"
    and "fmlookup td ''containerDefinitions'' = Some (PList cs)"
  shows "\<exists>cur pre d post new.
           current_ecs_container_name h = Inr cur
           \<and> cs = pre @ PDict d # post
           \<and> (\<forall>c\<in>set pre. \<not> named cur c) \<and> named cur (PDict d)
           \<and> fmlookup out ''containerDefinitions'' = Some (PList (pre @ post @ [PDict new]))
           \<and> length (pre @ post @ [PDict new]) = length cs
           \<and> fmlookup new ''name'' = Some container_name
           \<and> fmlookup new ''image'' = Some image'
           \<and> fmlookup new ''dependsOn'' = fmlookup d ''dependsOn''"
proof (cases rule: default_ecs_task_definition_cases [of h ecs family td image' container_name
         environment command secrets True])
  case (raises e)
  with assms show ?thesis by simp
next
  case (returns cur pre d post)
  let ?new = "new_container_definition d image' container_name environment command secrets True"
  from returns(6) assms(1) have
    "fmlookup out ''containerDefinitions'' = Some (PList (pre @ post @ [PDict ?new]))"
    by auto
  moreover from returns(2) assms(2) have "cs = pre @ PDict d # post"
    by simp
  moreover have "fmlookup ?new ''name'' = Some container_name"
    "fmlookup ?new ''image'' = Some image'"
    "fmlookup ?new ''dependsOn'' = fmlookup d ''dependsOn''"
    by (simp_all add: lookup_new_container_definition)
  ultimately show ?thesis
    using returns(1,3,4) by auto
qed

theorem synthesize_with_sidecars_witness:
  "\<exists>cur pre d post new.
     current_ecs_container_name host_dagit = Inr cur
     \<and> [dagit_container, logs_container] = pre @ PDict d # post
     \<and> (\<forall>c\<in>set pre. \<not> named cur c) \<and> named cur (PDict d)
     \<and> fmlookup (synthesized [logs_container, run_container run_environment depends_on_logs])
         ''containerDefinitions'' = Some (PList (pre @ post @ [PDict new]))
     \<and> length (pre @ post @ [PDict new]) = length [dagit_container, logs_container]
     \<and> fmlookup new ''name'' = Some (PStr ''run'')
     \<and> fmlookup new ''image'' = Some (PStr ''job:2'')
     \<and> fmlookup new ''dependsOn'' = fmlookup d ''dependsOn''"
proof -
  have returned:
    "fst (default_ecs_task_definition host_dagit ecs_registering (PStr ''run'')
            current_with_logs (PStr ''job:2'') (PStr ''run'') run_environment PNone PNone True)
     = Inr (synthesized [logs_container, run_container run_environment depends_on_logs])"
    by (simp add: with_logs_run)
  have listed:
    "fmlookup current_with_logs ''containerDefinitions''
     = Some (PList [dagit_container, logs_container])"
    by (simp add: current_with_logs_def)
  show ?thesis
    by (rule synthesize_with_sidecars [OF returned listed])
qed

text \<open>
  C7. Whenever the call returns, the keys of the output are the keys of the current task
  definition that are members of \<^verbatim>\<open>RegisterTaskDefinitionRequest\<close>, and \<^verbatim>\<open>family\<close> and
  \<^verbatim>\<open>containerDefinitions\<close>. \<^verbatim>\<open>family\<close> is the requested family and \<^verbatim>\<open>containerDefinitions\<close> is
  the new list, which ends with the synthesized container definition. Every other key has
  the value of the current task definition when it is a member, and is absent when it is
  not, as \<^verbatim>\<open>revision\<close> and \<^verbatim>\<open>status\<close> are.
\<close>

theorem synthesize_top_level_keys:
  assumes "fst (default_ecs_task_definition h ecs family td image' container_name environment
             command secrets include_sidecars) = Inr out"
  shows "fmdom' out = (fmdom' td \<inter> set (members ecs)) \<union> {''family'', ''containerDefinitions''}
         \<and> fmlookup out ''family'' = Some family
         \<and> (\<exists>kept d. fmlookup out ''containerDefinitions'' =
               Some (PList (kept @ [PDict (new_container_definition d image' container_name
                                             environment command secrets include_sidecars)])))
         \<and> (\<forall>k. k \<noteq> ''family'' \<and> k \<noteq> ''containerDefinitions'' \<longrightarrow>
               fmlookup out k = (if k \<in> set (members ecs) then fmlookup td k else None))"
proof (cases rule: default_ecs_task_definition_cases [of h ecs family td image' container_name
         environment command secrets include_sidecars])
  case (raises e)
  with assms show ?thesis by simp
next
  case (returns cur pre d post)
  let ?new = "new_container_definition d image' container_name environment command secrets
                include_sidecars"
  let ?cds = "(if include_sidecars then pre @ post else []) @ [PDict ?new]"
  from returns(6) assms have out:
    "out = fmupd ''containerDefinitions'' (PList ?cds)
             (fmupd ''family'' family (expected_items (members ecs) td))"
    by auto
  have "fmdom' out = (fmdom' td \<inter> set (members ecs)) \<union> {''family'', ''containerDefinitions''}"
    unfolding out by (auto simp: dom_expected_items)
  moreover have "fmlookup out ''family'' = Some family"
    unfolding out by simp
  moreover have "fmlookup out ''containerDefinitions'' = Some (PList (?cds))"
    unfolding out by simp
  moreover have "\<forall>k. k \<noteq> ''family'' \<and> k \<noteq> ''containerDefinitions'' \<longrightarrow>
               fmlookup out k = (if k \<in> set (members ecs) then fmlookup td k else None)"
    unfolding out by (simp add: lookup_expected_items)
  ultimately show ?thesis
    by blast
qed

theorem synthesize_top_level_keys_witness:
  "fmdom' (synthesized [logs_container, run_container run_environment depends_on_logs])
     = (fmdom' current_with_logs \<inter> set (members ecs_registering))
       \<union> {''family'', ''containerDefinitions''}
   \<and> fmlookup (synthesized [logs_container, run_container run_environment depends_on_logs])
       ''family'' = Some (PStr ''run'')
   \<and> fmlookup (synthesized [logs_container, run_container run_environment depends_on_logs])
       ''revision'' = None
   \<and> fmlookup (synthesized [logs_container, run_container run_environment depends_on_logs])
       ''status'' = None
   \<and> fmlookup (synthesized [logs_container, run_container run_environment depends_on_logs])
       ''cpu'' = fmlookup current_with_logs ''cpu''"
proof -
  have returned:
    "fst (default_ecs_task_definition host_dagit ecs_registering (PStr ''run'')
            current_with_logs (PStr ''job:2'') (PStr ''run'') run_environment PNone PNone True)
     = Inr (synthesized [logs_container, run_container run_environment depends_on_logs])"
    by (simp add: with_logs_run)
  note keys = synthesize_top_level_keys [OF returned]
  from keys have others:
    "\<forall>k. k \<noteq> ''family'' \<and> k \<noteq> ''containerDefinitions'' \<longrightarrow>
       fmlookup (synthesized [logs_container, run_container run_environment depends_on_logs]) k
       = (if k \<in> set (members ecs_registering) then fmlookup current_with_logs k else None)"
    by blast
  have "fmlookup (synthesized [logs_container, run_container run_environment depends_on_logs])
          ''revision'' = None"
    using others [rule_format, of "''revision''"] by (simp add: ecs_registering_def)
  moreover have
    "fmlookup (synthesized [logs_container, run_container run_environment depends_on_logs])
       ''status'' = None"
    using others [rule_format, of "''status''"] by (simp add: ecs_registering_def)
  moreover have
    "fmlookup (synthesized [logs_container, run_container run_environment depends_on_logs])
       ''cpu'' = fmlookup current_with_logs ''cpu''"
    using others [rule_format, of "''cpu''"] by (simp add: ecs_registering_def)
  ultimately show ?thesis
    using keys by blast
qed

text \<open>
  Without sidecars the function builds a list of its own, and the current task
  definition is left as it was; so it is whenever the call raises.
\<close>

lemma default_ecs_task_definition_without_sidecars:
  "snd (default_ecs_task_definition h ecs family td image' container_name environment
          command secrets False) = td"
proof (cases rule: default_ecs_task_definition_cases [of h ecs family td image' container_name
         environment command secrets False])
  case (raises e)
  then show ?thesis by simp
next
  case (returns cur pre d post)
  then show ?thesis by simp
qed

text \<open>
  C4. With sidecars the function does not build a list of its own: it takes the list of
  container definitions out of the current task definition and calls \<^verbatim>\<open>remove\<close> and
  \<^verbatim>\<open>append\<close> on it, so the call changes the caller's document. On the task definition
  with the log router, the document that the call leaves behind is not the one it was
  given: the container \<^verbatim>\<open>dagit\<close> is gone from it and the container \<^verbatim>\<open>run\<close> is there. The
  same call on the document left behind, with the host answering as before, raises
  \<^verbatim>\<open>StopIteration\<close> where the first call returned.
\<close>

theorem default_ecs_task_definition_changes_input:
  "snd (default_ecs_task_definition host_dagit ecs_registering (PStr ''run'') current_with_logs
          (PStr ''job:2'') (PStr ''run'') run_environment PNone PNone True)
   \<noteq> current_with_logs
   \<and> fmlookup
       (snd (default_ecs_task_definition host_dagit ecs_registering (PStr ''run'')
               current_with_logs (PStr ''job:2'') (PStr ''run'') run_environment PNone PNone True))
       ''containerDefinitions''
     = Some (PList [logs_container, run_container run_environment depends_on_logs])
   \<and> fst (default_ecs_task_definition host_dagit ecs_registering (PStr ''run'')
            current_with_logs (PStr ''job:2'') (PStr ''run'') run_environment PNone PNone True)
     = Inr (synthesized [logs_container, run_container run_environment depends_on_logs])
   \<and> fst (default_ecs_task_definition host_dagit ecs_registering (PStr ''run'')
            (snd (default_ecs_task_definition host_dagit ecs_registering (PStr ''run'')
                    current_with_logs (PStr ''job:2'') (PStr ''run'') run_environment PNone
                    PNone True))
            (PStr ''job:2'') (PStr ''run'') run_environment PNone PNone True)
     = Inl StopIteration"
  by code_simp

section \<open>The projector\<close>

text \<open>
  What the loops compute. An attachment of another kind contributes nothing, and a list
  of attachments is worked through to its end; the flag is set exactly when one of the
  collected interfaces reports a public address, and the security groups are those of the
  collected interfaces, in their order. These are the arguments that the function passes
  to the constructor.
\<close>

lemma collect_groups_raises:
  "collect_groups items acc = Inl e \<Longrightarrow> collect_groups items acc' = Inl e"
proof (induction items arbitrary: acc acc')
  case Nil
  then show ?case by simp
next
  case (Cons g items)
  then show ?case
    by (cases "subscript g ''GroupId''") auto
qed

lemma collect_groups_acc:
  "collect_groups items acc = Inr r \<Longrightarrow>
     \<exists>ids. collect_groups items [] = Inr ids \<and> r = acc @ ids"
proof (induction items arbitrary: acc r)
  case Nil
  then show ?case by simp
next
  case (Cons g items)
  from Cons.prems obtain gid where gid: "subscript g ''GroupId'' = Inr gid"
    by (cases "subscript g ''GroupId''") simp_all
  with Cons.prems have rest: "collect_groups items (acc @ [gid]) = Inr r"
    by simp
  from Cons.IH [OF rest] obtain ids where
    ids: "collect_groups items [] = Inr ids" "r = (acc @ [gid]) @ ids"
    by blast
  obtain r' where r': "collect_groups items [gid] = Inr r'"
    using collect_groups_raises [of items "[gid]" _ "acc @ [gid]"] rest
    by (cases "collect_groups items [gid]") auto
  from Cons.IH [OF r'] ids(1) have "r' = [gid] @ ids"
    by simp
  with gid ids r' show ?case by simp
qed

lemma inspect_enis_result:
  "inspect_enis enis (public_ip, security_groups) = Inr (public_ip', security_groups') \<Longrightarrow>
     public_ip' = (public_ip \<or> (\<exists>eni\<in>set enis. has_public_ip eni))
     \<and> security_groups' = security_groups @ concat (map group_ids enis)"
proof (induction enis arbitrary: public_ip security_groups)
  case Nil
  then show ?case by simp
next
  case (Cons eni enis)
  let ?assoc = "if truthy (association_attribute eni) then association_attribute eni
                else PDict fmempty"
  from Cons.prems obtain ip where ip: "py_get ?assoc ''PublicIp'' = Inr ip"
    by (cases "py_get ?assoc ''PublicIp''") simp_all
  from Cons.prems ip obtain items where items: "py_iter (groups eni) = Inr items"
    by (cases "py_iter (groups eni)") simp_all
  from Cons.prems ip items obtain sg where sg: "collect_groups items security_groups = Inr sg"
    by (cases "collect_groups items security_groups") simp_all
  from collect_groups_acc [OF sg] obtain ids where
    ids: "collect_groups items [] = Inr ids" "sg = security_groups @ ids"
    by blast
  have g: "group_ids eni = ids"
    by (simp add: group_ids_def items ids)
  have p: "has_public_ip eni = truthy ip"
    using ip by (simp add: has_public_ip_def)
  from Cons.prems ip items sg have
    "inspect_enis enis (if truthy ip then True else public_ip, sg)
     = Inr (public_ip', security_groups')"
    by simp
  from Cons.IH [OF this] show ?case
    using g p ids by auto
qed

lemma collect_attachments_other_kind:
  "subscript attachment ''type'' = Inr t \<Longrightarrow> \<not> py_eq t (PStr ''ElasticNetworkInterface'')
   \<Longrightarrow> collect_attachments ec2 (attachment # rest) acc = collect_attachments ec2 rest acc"
  by simp

lemma collect_attachments_append:
  "collect_attachments ec2 (xs @ ys) acc
   = and_then (collect_attachments ec2 xs acc) (collect_attachments ec2 ys)"
proof (induction xs arbitrary: acc)
  case Nil
  then show ?case by simp
next
  case (Cons a xs)
  show ?case
  proof (cases "subscript a ''type''")
    case (Inl e)
    then show ?thesis by simp
  next
    case (Inr t)
    show ?thesis
    proof (cases "py_eq t (PStr ''ElasticNetworkInterface'')")
      case False
      with Inr Cons.IH show ?thesis by simp
    next
      case True
      show ?thesis
      proof (cases "and_then (subscript a ''details'') (\<lambda>details.
                    and_then (py_iter details) (\<lambda>items. collect_details ec2 items acc))")
        case (Inl e)
        with Inr True show ?thesis by simp
      next
        case r: (Inr acc')
        with Inr True Cons.IH [of acc'] show ?thesis by simp
      qed
    qed
  qed
qed

lemma current_ecs_task_config_arguments_computed:
  assumes "current_ecs_task_config_arguments ec2 cluster task task_def environment secrets
             container_name image' = Inr kwargs"
  shows "\<exists>attachments items enis subnets.
           fmlookup task ''attachments'' = Some attachments
           \<and> py_iter attachments = Inr items
           \<and> collect_attachments ec2 items ([], []) = Inr (enis, subnets)
           \<and> map_of kwargs ''subnets'' = Some (PList subnets)
           \<and> map_of kwargs ''assign_public_ip'' =
               Some (PStr (if \<exists>eni\<in>set enis. has_public_ip eni then ''ENABLED''
                           else ''DISABLED''))
           \<and> map_of kwargs ''security_groups'' = Some (PList (concat (map group_ids enis)))"
proof -
  from assms obtain attachments where a: "fmlookup task ''attachments'' = Some attachments"
    by (cases "fmlookup task ''attachments''")
       (simp_all add: current_ecs_task_config_arguments_def dict_item_def)
  from assms a obtain items where i: "py_iter attachments = Inr items"
    by (cases "py_iter attachments")
       (simp_all add: current_ecs_task_config_arguments_def dict_item_def)
  from assms a i obtain enis subnets where
    c: "collect_attachments ec2 items ([], []) = Inr (enis, subnets)"
    by (cases "collect_attachments ec2 items ([], [])")
       (auto simp: current_ecs_task_config_arguments_def dict_item_def)
  from assms a i c obtain public_ip security_groups where
    e: "inspect_enis enis (False, []) = Inr (public_ip, security_groups)"
    by (cases "inspect_enis enis (False, [])")
       (auto simp: current_ecs_task_config_arguments_def dict_item_def)
  from inspect_enis_result [OF e] have
    r: "public_ip = (\<exists>eni\<in>set enis. has_public_ip eni)"
       "security_groups = concat (map group_ids enis)"
    by simp_all
  from assms a i c e obtain family where f: "fmlookup task_def ''family'' = Some family"
    by (cases "fmlookup task_def ''family''")
       (simp_all add: current_ecs_task_config_arguments_def dict_item_def Let_def)
  from assms a i c e f have
    "map_of kwargs ''subnets'' = Some (PList subnets)"
    "map_of kwargs ''assign_public_ip'' =
       Some (PStr (if public_ip then ''ENABLED'' else ''DISABLED''))"
    "map_of kwargs ''security_groups'' = Some (PList security_groups)"
    by (auto simp: current_ecs_task_config_arguments_def dict_item_def Let_def)
  with a i c r show ?thesis
    by simp
qed

text \<open>
  On the task of the spec's example the function computes what the spec expects, the
  subnets and the groups of both interfaces and \<^verbatim>\<open>"ENABLED"\<close>, as arguments of the
  constructor.
\<close>

lemma current_ecs_task_config_arguments_example:
  "current_ecs_task_config_arguments two_interfaces (PStr ''default'') observed_task
     launched_from (PList []) (PList []) (PStr ''run'') (PStr ''dagster:latest'')
   = Inr [(''container_name'', PStr ''run''),
          (''image'', PStr ''dagster:latest''),
          (''family'', PStr ''dagster''),
          (''cluster'', PStr ''default''),
          (''subnets'', PList [PStr ''subnet-1'', PStr ''subnet-2'']),
          (''security_groups'', PList [PStr ''g1'', PStr ''g2'']),
          (''execution_role_arn'', PStr ''arn:role/exec''),
          (''task_role_arn'', PNone),
          (''assign_public_ip'', PStr ''ENABLED''),
          (''environment'', PList []),
          (''secrets'', PList [])]"
  by code_simp

text \<open>
  C8. The constructor is called without \<^verbatim>\<open>command\<close> and \<^verbatim>\<open>log_configuration\<close>, fields of
  the dataclass that have no default value. So the call raises \<^verbatim>\<open>TypeError\<close> and the
  function returns no config: here on the task of the spec's example, where the claim
  expects \<^verbatim>\<open>assign_public_ip\<close> to be \<^verbatim>\<open>"ENABLED"\<close> and both groups among the security groups.
\<close>

theorem current_ecs_task_config_raises:
  "current_ecs_task_config two_interfaces (PStr ''default'') observed_task launched_from
     (PList []) (PList []) (PStr ''run'') (PStr ''dagster:latest'') = Inl TypeError"
  by code_simp

text \<open>It is so on every input: the function never returns.\<close>

lemma init_needs_command:
  "map_of kwargs ''command'' = None \<Longrightarrow> DagsterEcsTaskConfig_init kwargs = Inl TypeError"
  by (simp add: DagsterEcsTaskConfig_init_def keyword_def and_then_def
      split: sum.splits option.splits)

lemma current_ecs_task_config_never_returns:
  "\<exists>e. current_ecs_task_config ec2 cluster task task_def environment secrets container_name
          image' = Inl e"
proof (cases "current_ecs_task_config_arguments ec2 cluster task task_def environment secrets
                container_name image'")
  case (Inl e)
  then show ?thesis by (simp add: current_ecs_task_config_def)
next
  case (Inr kwargs)
  then have "map_of kwargs ''command'' = None"
    by (auto simp: current_ecs_task_config_arguments_def and_then_def Let_def
        split: sum.splits prod.splits)
  then show ?thesis using Inr
    by (simp add: current_ecs_task_config_def init_needs_command)
qed

section \<open>The metadata resolver\<close>

text \<open>
  C9, as the code has it. The module has no errors of its own for the metadata: it reads
  \<^verbatim>\<open>Cluster\<close> and \<^verbatim>\<open>TaskARN\<close> with \<^verbatim>\<open>get\<close>, which gives \<^verbatim>\<open>None\<close> for a missing key. When the
  endpoint answers with an empty object, \<^verbatim>\<open>current_ecs_task_metadata\<close> does not fail: it
  returns a cluster and a task that are both \<^verbatim>\<open>None\<close>.
\<close>

theorem metadata_resolver_counterexample:
  "current_ecs_task_metadata host_empty_answer
   = Inr \<lparr> md_cluster = PNone, md_task_arn = PNone \<rparr>"
  by (simp add: current_ecs_task_metadata_def host_empty_answer_def container_metadata_uri_def
      dict_get_def)

text \<open>
  C9, amended. When the environment variable is not set, \<^verbatim>\<open>current_ecs_task_metadata\<close>
  raises \<^verbatim>\<open>TypeError\<close> (from \<^verbatim>\<open>None + "/task"\<close>), whatever the endpoint would answer. When
  the variable is set and the endpoint answers with an object, it returns the values
  under \<^verbatim>\<open>Cluster\<close> and \<^verbatim>\<open>TaskARN\<close>, \<^verbatim>\<open>None\<close> for one that is missing, and does not fail.
  \<^verbatim>\<open>current_ecs_container_name\<close> returns the value under \<^verbatim>\<open>Name\<close> of the object that the
  endpoint answers with, and raises \<^verbatim>\<open>KeyError\<close> when there is none.
\<close>

theorem metadata_resolver:
  "(os_environ h ''ECS_CONTAINER_METADATA_URI_V4'' = None
      \<longrightarrow> current_ecs_task_metadata h = Inl TypeError)
   \<and> (os_environ h ''ECS_CONTAINER_METADATA_URI_V4'' = Some uri
       \<and> requests_get_json h (PStr (uri @ ''/task'')) = Inr (PDict response)
      \<longrightarrow> current_ecs_task_metadata h =
            Inr \<lparr> md_cluster =
                    (case fmlookup response ''Cluster'' of None \<Rightarrow> PNone | Some v \<Rightarrow> v),
                  md_task_arn =
                    (case fmlookup response ''TaskARN'' of None \<Rightarrow> PNone | Some v \<Rightarrow> v) \<rparr>)
   \<and> (requests_get_json h (container_metadata_uri h) = Inr (PDict response)
      \<longrightarrow> current_ecs_container_name h =
            (case fmlookup response ''Name'' of None \<Rightarrow> Inl KeyError | Some v \<Rightarrow> Inr v))"
  by (simp add: current_ecs_task_metadata_def current_ecs_container_name_def
      container_metadata_uri_def dict_get_def)

theorem metadata_resolver_witness:
  "current_ecs_task_metadata host_unset = Inl TypeError
   \<and> current_ecs_task_metadata host_cluster_only
       = Inr \<lparr> md_cluster = PStr ''default'', md_task_arn = PNone \<rparr>
   \<and> current_ecs_container_name host_cluster_only = Inl KeyError"
  using metadata_resolver [of host_unset "''''" fmempty]
        metadata_resolver [of host_cluster_only "''http://169.254.170.2/v4/abc''" cluster_only]
  by (simp add: host_unset_def host_cluster_only_def cluster_only_def
      container_metadata_uri_def)

end
